theory Spec2Isabelle
  imports Main "HOL-Library.Multiset" "HOL-Library.Sublist"
begin

section \<open>The research agent graph (backend/src/agent/graph.py)\<close>

text \<open>
  A shallow embedding of the four nodes, the two routing functions and the edge wiring
  of \<^verbatim>\<open>graph.py\<close>. Python's unbounded integers are \<^typ>\<open>int\<close>, strings are
  \<^typ>\<open>string\<close>, a key that a dictionary may lack is an \<^typ>\<open>'a option\<close> field,
  and every exception is a value of \<open>error\<close> returned as \<open>Inl\<close>.
\<close>

subsection \<open>Data\<close>

datatype error =
    ValueError string
  | KeyError string
  | ProviderError string

text \<open>A message of the conversation: the user's question or the model's answer.\<close>

datatype message = HumanMessage string | AIMessage string

text \<open>One search hit as the search tool returns it: the keys the code reads.\<close>

record source =
  title :: string
  url :: string
  content :: string

text \<open>
  Modelled from the spec: the run state \<^verbatim>\<open>OverallState\<close> (declared in
  \<^verbatim>\<open>agent/state.py\<close>, which is not part of the sources at hand), with the fields of
  the spec's RunState table under the keys \<^verbatim>\<open>graph.py\<close> reads and writes. The keys the
  code reads with \<^verbatim>\<open>state.get\<close> may be absent and are options;
  \<open>search_query_acc\<close> is the state key \<^verbatim>\<open>search_query\<close>, to which every
  \<^verbatim>\<open>web_research\<close> branch returns a one-element list.
\<close>

record OverallState =
  messages :: "message list"
  search_query_acc :: "string list"
  web_research_result :: "string list"
  sources_gathered :: "source list"
  query_list :: "string list"
  is_sufficient :: bool
  knowledge_gap :: string
  follow_up_queries :: "string list"
  research_loop_count :: "int option"
  initial_search_query_count :: "int option"
  max_research_loops :: "int option"
  reflection_model :: "string option"
  answer_model :: "string option"

text \<open>
  Modelled from the spec: the run configuration \<^verbatim>\<open>Configuration\<close> (declared in
  \<^verbatim>\<open>agent/configuration.py\<close>, not part of the sources at hand): the configured
  defaults, with the attribute names \<^verbatim>\<open>graph.py\<close> reads.
\<close>

record Configuration =
  number_of_initial_queries :: int
  query_generator_model :: string
  cfg_reflection_model :: string
  cfg_answer_model :: string
  cfg_max_research_loops :: int

text \<open>The per-branch input of a \<^verbatim>\<open>web_research\<close> invocation.\<close>

record WebSearchState =
  search_query :: string

text \<open>
  \<^verbatim>\<open>Send(node, arg)\<close>: one dynamically dispatched invocation of the named node.
  A routing function returns either the name of the next node or a list of dispatches.
\<close>

datatype send = Send string WebSearchState

datatype route = Route string | Dispatch "send list"

subsection \<open>Routing after reflection\<close>

text \<open>
  \<^verbatim>\<open>evaluate_research\<close> (lines 147-166). The \<^verbatim>\<open>or\<close> is short-circuit:
  \<^verbatim>\<open>state["research_loop_count"]\<close> is read only when \<^verbatim>\<open>is_sufficient\<close> is
  false, and raises \<^verbatim>\<open>KeyError\<close> when the key is absent.
\<close>

definition evaluate_research :: "OverallState \<Rightarrow> Configuration \<Rightarrow> error + route" where
  "evaluate_research state configurable =
     (let max_loops =
            (case max_research_loops state of
               Some m \<Rightarrow> m
             | None \<Rightarrow> cfg_max_research_loops configurable)
      in if is_sufficient state then Inr (Route ''finalize_answer'')
         else (case research_loop_count state of
                 None \<Rightarrow> Inl (KeyError ''research_loop_count'')
               | Some c \<Rightarrow>
                   if c \<ge> max_loops then Inr (Route ''finalize_answer'')
                   else Inr (Dispatch
                     (map (\<lambda>follow_up_query.
                            Send ''web_research'' \<lparr>search_query = follow_up_query\<rparr>)
                          (follow_up_queries state)))))"

subsection \<open>Python strings\<close>

text \<open>\<^verbatim>\<open>str(n)\<close> for an integer: decimal digits, with a minus sign when negative.\<close>

fun str_nat :: "nat \<Rightarrow> string" where
  "str_nat n =
     (if n < 10 then [''0123456789'' ! n]
      else str_nat (n div 10) @ [''0123456789'' ! (n mod 10)])"

definition str_int :: "int \<Rightarrow> string" where
  "str_int i = (if i < 0 then CHR ''-'' # str_nat (nat (- i)) else str_nat (nat i))"

text \<open>\<^verbatim>\<open>sep.join(xs)\<close>.\<close>

fun join :: "string \<Rightarrow> string list \<Rightarrow> string" where
  "join sep [] = []"
| "join sep [x] = x"
| "join sep (x # y # ys) = x @ sep @ join sep (y # ys)"

text \<open>
  A template for \<^verbatim>\<open>str.format\<close>, split at its replacement fields: \<open>Field name\<close>
  stands for \<^verbatim>\<open>{name}\<close>, and the doubled braces of the Python text are the single
  braces they denote. \<^verbatim>\<open>format\<close> raises \<^verbatim>\<open>KeyError\<close> for a field with no
  keyword argument and ignores a keyword argument that no field names.
\<close>

datatype segment = Lit string | Field string

fun format_template :: "segment list \<Rightarrow> (string \<times> string) list \<Rightarrow> error + string" where
  "format_template [] kwargs = Inr []"
| "format_template (Lit s # segs) kwargs =
     (case format_template segs kwargs of
        Inl e \<Rightarrow> Inl e
      | Inr rest \<Rightarrow> Inr (s @ rest))"
| "format_template (Field name # segs) kwargs =
     (case map_of kwargs name of
        None \<Rightarrow> Inl (KeyError name)
      | Some v \<Rightarrow>
          (case format_template segs kwargs of
             Inl e \<Rightarrow> Inl e
           | Inr rest \<Rightarrow> Inr (v @ rest)))"

subsection \<open>The prompt templates (backend/src/agent/prompts.py)\<close>

definition query_writer_instructions :: "segment list" where
  \<open>query_writer_instructions =
     [Lit ''Your goal is to generate sophisticated and diverse web search queries. These queries are intended for an advanced automated web research tool capable of analyzing complex results, following links, and synthesizing information.\<newline>'',
      Lit ''\<newline>'',
      Lit ''Instructions:\<newline>'',
      Lit ''- Always prefer a single search query, only add another query if the original question requests multiple aspects or elements and one query is not enough.\<newline>'',
      Lit ''- Each query should focus on one specific aspect of the original question.\<newline>'',
      Lit ''- Don't produce more than '',
      Field ''number_queries'',
      Lit '' queries.\<newline>'',
      Lit ''- Queries should be diverse, if the topic is broad, generate more than 1 query.\<newline>'',
      Lit ''- Don't generate multiple similar queries, 1 is enough.\<newline>'',
      Lit ''- Query should ensure that the most current information is gathered. The current date is '',
      Field ''current_date'',
      Lit ''.\<newline>'',
      Lit ''\<newline>'',
      Lit ''Format: \<newline>'',
      Lit ''- Format your response as a JSON object with ALL three of these exact keys:\<newline>'',
      Lit ''   - "rationale": Brief explanation of why these queries are relevant\<newline>'',
      Lit ''   - "query": A list of search queries\<newline>'',
      Lit ''\<newline>'',
      Lit ''Example:\<newline>'',
      Lit ''\<newline>'',
      Lit ''Topic: What revenue grew more last year apple stock or the number of people buying an iphone\<newline>'',
      Lit ''```json\<newline>'',
      Lit ''{\<newline>'',
      Lit ''    "rationale": "To answer this comparative growth question accurately, we need specific data points on Apple's stock performance and iPhone sales metrics. These queries target the precise financial information needed: company revenue trends, product-specific unit sales figures, and stock price movement over the same fiscal period for direct comparison.",\<newline>'',
      Lit ''    "query": ["Apple total revenue growth fiscal year 2024", "iPhone unit sales growth fiscal year 2024", "Apple stock price growth fiscal year 2024"],\<newline>'',
      Lit ''}\<newline>'',
      Lit ''```\<newline>'',
      Lit ''\<newline>'',
      Lit ''Context: '',
      Field ''research_topic'']\<close>

definition reflection_instructions :: "segment list" where
  \<open>reflection_instructions =
     [Lit ''You are an expert research assistant analyzing summaries about "'',
      Field ''research_topic'',
      Lit ''".\<newline>'',
      Lit ''\<newline>'',
      Lit ''Instructions:\<newline>'',
      Lit ''- Analyze the following summaries, which are derived from web searches.\<newline>'',
      Lit ''- Each summary is formatted as: "Source [number]: Title\<newline>'',
      Lit ''URL: url\<newline>'',
      Lit ''Content: snippet".\<newline>'',
      Lit ''- Based on these summaries, determine if you have sufficient information to provide a comprehensive answer to the user's original question: "'',
      Field ''research_topic'',
      Lit ''".\<newline>'',
      Lit ''- If the information is insufficient, identify the knowledge gaps and generate specific, targeted follow-up queries for a web search tool.\<newline>'',
      Lit ''- If the information is sufficient, state that and provide an empty list for follow-up queries.\<newline>'',
      Lit ''\<newline>'',
      Lit ''Requirements:\<newline>'',
      Lit ''- Ensure any follow-up queries are self-contained and provide enough context.\<newline>'',
      Lit ''\<newline>'',
      Lit ''Output Format:\<newline>'',
      Lit ''- Format your response as a JSON object with these exact keys:\<newline>'',
      Lit ''   - "is_sufficient": true or false\<newline>'',
      Lit ''   - "knowledge_gap": A string describing what information is missing. If sufficient, this should be an empty string.\<newline>'',
      Lit ''   - "follow_up_queries": A list of strings, where each string is a follow-up search query. If sufficient, this should be an empty list.\<newline>'',
      Lit ''\<newline>'',
      Lit ''Example:\<newline>'',
      Lit ''```json\<newline>'',
      Lit ''{\<newline>'',
      Lit ''    "is_sufficient": false,\<newline>'',
      Lit ''    "knowledge_gap": "The summaries confirm the event happened but lack details on the specific individuals who won awards.",\<newline>'',
      Lit ''    "follow_up_queries": ["Who won the Best Player award at Euro 2024?", "Who was the top goal scorer at Euro 2024?"]\<newline>'',
      Lit ''}\<newline>'',
      Lit ''```\<newline>'',
      Lit ''\<newline>'',
      Lit ''Reflect carefully on the Summaries to identify knowledge gaps and produce a follow-up query. Then, produce your output following this JSON format:\<newline>'',
      Lit ''\<newline>'',
      Lit ''Summaries:\<newline>'',
      Field ''summaries'',
      Lit ''\<newline>'']\<close>

definition answer_instructions :: "segment list" where
  \<open>answer_instructions =
     [Lit ''You are a research assistant. Your task is to generate a high-quality, comprehensive answer to the user's question based on the provided web search summaries.\<newline>'',
      Lit ''\<newline>'',
      Lit ''Instructions:\<newline>'',
      Lit ''- The current date is '',
      Field ''current_date'',
      Lit ''.\<newline>'',
      Lit ''- You are the final step of a multi-step research process, don't mention that you are the final step. \<newline>'',
      Lit ''- You have access to all the information gathered from the previous steps.\<newline>'',
      Lit ''- You have access to the user's question.\<newline>'',
      Lit ''- Generate a high-quality answer to the user's question based on the provided summaries and the user's question.\<newline>'',
      Lit ''- you MUST include all the citations from the summaries in the answer correctly.\<newline>'',
      Lit ''\<newline>'',
      Lit ''User Context:\<newline>'',
      Lit ''- '',
      Field ''research_topic'',
      Lit ''\<newline>'',
      Lit ''\<newline>'',
      Lit ''Summaries:\<newline>'',
      Field ''summaries'']\<close>

subsection \<open>The external step interfaces\<close>

text \<open>
  The structured outputs the language model is asked for (the schemas
  \<^verbatim>\<open>SearchQueryList\<close> and \<^verbatim>\<open>Reflection\<close> of \<^verbatim>\<open>agent/tools_and_schemas.py\<close>),
  with the attributes \<^verbatim>\<open>graph.py\<close> reads of a result.
\<close>

record SearchQueryList =
  query :: "string list"
  rationale :: string

record Reflection =
  res_is_sufficient :: bool
  res_knowledge_gap :: string
  res_follow_up_queries :: "string list"

text \<open>
  What the graph calls and does not implement, taken as parameters: the language model
  behind \<^verbatim>\<open>get_llm\<close> (asked with a model name and a prompt), the search tool, the
  clock behind \<^verbatim>\<open>get_current_date\<close>, and \<^verbatim>\<open>get_research_topic\<close> of
  \<^verbatim>\<open>agent/utils.py\<close>. The first argument of a call is its number within the run, so
  that two calls with equal arguments may answer differently; a failed call is
  \<open>Inl\<close>, the exception the node lets through.
\<close>

record providers =
  invoke_query_writer :: "nat \<Rightarrow> string \<Rightarrow> string \<Rightarrow> error + SearchQueryList"
  invoke_reflection :: "nat \<Rightarrow> string \<Rightarrow> string \<Rightarrow> error + Reflection"
  invoke_llm :: "nat \<Rightarrow> string \<Rightarrow> string \<Rightarrow> error + string"
  tavily_invoke :: "nat \<Rightarrow> string \<Rightarrow> error + source list"
  get_current_date :: "nat \<Rightarrow> string"
  get_research_topic :: "message list \<Rightarrow> string"

subsection \<open>State updates and their merge\<close>

text \<open>
  The dictionary a node returns: only the keys it sets (\<open>None\<close> is a key the
  dictionary does not have).
\<close>

record StateUpdate =
  upd_messages :: "message list option"
  upd_search_query :: "string list option"
  upd_web_research_result :: "string list option"
  upd_sources_gathered :: "source list option"
  upd_query_list :: "string list option"
  upd_is_sufficient :: "bool option"
  upd_knowledge_gap :: "string option"
  upd_follow_up_queries :: "string list option"
  upd_research_loop_count :: "int option"

definition no_update :: StateUpdate where
  "no_update =
     \<lparr>upd_messages = None, upd_search_query = None, upd_web_research_result = None,
      upd_sources_gathered = None, upd_query_list = None, upd_is_sufficient = None,
      upd_knowledge_gap = None, upd_follow_up_queries = None,
      upd_research_loop_count = None\<rparr>"

text \<open>
  Modelled from the spec: the merge policy of each state key (the reducer annotations of
  \<^verbatim>\<open>agent/state.py\<close>, not part of the sources at hand), as the spec's RunState table
  gives it: the conversation, the web results and the gathered sources append what a node
  returns to what is stored; every other key is overwritten. The key
  \<^verbatim>\<open>search_query\<close>, which the table leaves out, appends as well.
\<close>

definition append_to :: "'a list \<Rightarrow> 'a list option \<Rightarrow> 'a list" where
  "append_to stored returned = (case returned of None \<Rightarrow> stored | Some new \<Rightarrow> stored @ new)"

definition overwrite :: "'a \<Rightarrow> 'a option \<Rightarrow> 'a" where
  "overwrite stored returned = (case returned of None \<Rightarrow> stored | Some new \<Rightarrow> new)"

definition apply_update :: "OverallState \<Rightarrow> StateUpdate \<Rightarrow> OverallState" where
  "apply_update state u =
     state\<lparr>messages := append_to (messages state) (upd_messages u),
           search_query_acc := append_to (search_query_acc state) (upd_search_query u),
           web_research_result :=
             append_to (web_research_result state) (upd_web_research_result u),
           sources_gathered := append_to (sources_gathered state) (upd_sources_gathered u),
           query_list := overwrite (query_list state) (upd_query_list u),
           is_sufficient := overwrite (is_sufficient state) (upd_is_sufficient u),
           knowledge_gap := overwrite (knowledge_gap state) (upd_knowledge_gap u),
           follow_up_queries := overwrite (follow_up_queries state) (upd_follow_up_queries u),
           research_loop_count :=
             (case upd_research_loop_count u of
                None \<Rightarrow> research_loop_count state
              | Some c \<Rightarrow> Some c)\<rparr>"

text \<open>The updates of the branches of one wave, merged one after the other.\<close>

definition apply_updates :: "OverallState \<Rightarrow> StateUpdate list \<Rightarrow> OverallState" where
  "apply_updates state us = foldl apply_update state us"

subsection \<open>The nodes\<close>

text \<open>
  \<^verbatim>\<open>x or y\<close> on a string takes \<open>y\<close> when \<open>x\<close> is absent, \<^verbatim>\<open>None\<close> or
  empty.
\<close>

definition str_or :: "string option \<Rightarrow> string \<Rightarrow> string" where
  "str_or x y = (case x of None \<Rightarrow> y | Some s \<Rightarrow> if s = [] then y else s)"

text \<open>
  \<^verbatim>\<open>generate_query\<close> (lines 55-79). The default for
  \<^verbatim>\<open>initial_search_query_count\<close> (lines 62-63) is written into the node's own copy
  of the state and is not part of the returned update.
\<close>

definition number_queries :: "OverallState \<Rightarrow> Configuration \<Rightarrow> int" where
  "number_queries state configurable =
     (case initial_search_query_count state of
        None \<Rightarrow> number_of_initial_queries configurable
      | Some k \<Rightarrow> k)"

definition query_prompt ::
  "providers \<Rightarrow> Configuration \<Rightarrow> nat \<Rightarrow> OverallState \<Rightarrow> error + string" where
  "query_prompt P configurable n state =
     format_template query_writer_instructions
       [(''current_date'', get_current_date P n),
        (''research_topic'', get_research_topic P (messages state)),
        (''number_queries'', str_int (number_queries state configurable))]"

definition generate_query ::
  "providers \<Rightarrow> Configuration \<Rightarrow> nat \<Rightarrow> OverallState \<Rightarrow> error + StateUpdate" where
  "generate_query P configurable n state =
     (case query_prompt P configurable n state of
        Inl e \<Rightarrow> Inl e
      | Inr formatted_prompt \<Rightarrow>
          (case invoke_query_writer P n (query_generator_model configurable)
                  formatted_prompt of
             Inl e \<Rightarrow> Inl e
           | Inr result \<Rightarrow> Inr (no_update\<lparr>upd_query_list := Some (query result)\<rparr>)))"

text \<open>\<^verbatim>\<open>continue_to_web_research\<close> (lines 82-90).\<close>

definition continue_to_web_research :: "OverallState \<Rightarrow> send list" where
  "continue_to_web_research state =
     map (\<lambda>q. Send ''web_research'' \<lparr>search_query = q\<rparr>) (query_list state)"

text \<open>
  \<^verbatim>\<open>web_research\<close> (lines 93-114). The loop over
  \<^verbatim>\<open>enumerate(search_results)\<close> appends one block per result to
  \<^verbatim>\<open>formatted_results\<close>.
\<close>

definition source_block :: "nat \<Rightarrow> source \<Rightarrow> string" where
  "source_block i res =
     ''Source ['' @ str_nat (i + 1) @ '']: '' @ title res @ ''\<newline>URL: '' @ url res
       @ ''\<newline>Content: '' @ content res @ ''\<newline>\<newline>''"

definition format_results :: "source list \<Rightarrow> string" where
  "format_results search_results =
     foldl (\<lambda>formatted_results (i, res). formatted_results @ source_block i res) []
       (enumerate 0 search_results)"

definition web_research :: "providers \<Rightarrow> nat \<Rightarrow> WebSearchState \<Rightarrow> error + StateUpdate" where
  "web_research P n state =
     (case tavily_invoke P n (search_query state) of
        Inl e \<Rightarrow> Inl e
      | Inr search_results \<Rightarrow>
          Inr (no_update\<lparr>upd_web_research_result := Some [format_results search_results],
                          upd_sources_gathered := Some search_results,
                          upd_search_query := Some [search_query state]\<rparr>))"

text \<open>\<^verbatim>\<open>reflection\<close> (lines 117-144).\<close>

definition reflection_model_name :: "OverallState \<Rightarrow> Configuration \<Rightarrow> string" where
  "reflection_model_name state configurable =
     str_or (reflection_model state) (cfg_reflection_model configurable)"

definition reflection_prompt :: "providers \<Rightarrow> nat \<Rightarrow> OverallState \<Rightarrow> error + string" where
  "reflection_prompt P n state =
     format_template reflection_instructions
       [(''current_date'', get_current_date P n),
        (''research_topic'', get_research_topic P (messages state)),
        (''summaries'',
         join ''\<newline>\<newline>---\<newline>\<newline>'' (web_research_result state))]"

definition reflection ::
  "providers \<Rightarrow> Configuration \<Rightarrow> nat \<Rightarrow> OverallState \<Rightarrow> error + StateUpdate" where
  "reflection P configurable n state =
     (let loop_count = (case research_loop_count state of None \<Rightarrow> 0 | Some c \<Rightarrow> c) + 1
      in case reflection_prompt P n state of
           Inl e \<Rightarrow> Inl e
         | Inr formatted_prompt \<Rightarrow>
             (case invoke_reflection P n (reflection_model_name state configurable)
                     formatted_prompt of
                Inl e \<Rightarrow> Inl e
              | Inr result \<Rightarrow>
                  Inr (no_update\<lparr>upd_is_sufficient := Some (res_is_sufficient result),
                                  upd_knowledge_gap := Some (res_knowledge_gap result),
                                  upd_follow_up_queries := Some (res_follow_up_queries result),
                                  upd_research_loop_count := Some loop_count\<rparr>)))"

text \<open>\<^verbatim>\<open>finalize_answer\<close> (lines 169-200).\<close>

definition answer_model_name :: "OverallState \<Rightarrow> Configuration \<Rightarrow> string" where
  "answer_model_name state configurable =
     str_or (answer_model state) (cfg_answer_model configurable)"

definition citation_line :: "nat \<Rightarrow> source \<Rightarrow> string" where
  "citation_line i source =
     ''['' @ str_nat (i + 1) @ '']: ['' @ title source @ '']('' @ url source @ '')''"

definition source_list :: "OverallState \<Rightarrow> string" where
  "source_list state =
     join ''\<newline>'' (map (\<lambda>(i, source). citation_line i source)
                          (enumerate 0 (sources_gathered state)))"

definition answer_prompt :: "providers \<Rightarrow> nat \<Rightarrow> OverallState \<Rightarrow> error + string" where
  "answer_prompt P n state =
     format_template answer_instructions
       [(''current_date'', get_current_date P n),
        (''research_topic'', get_research_topic P (messages state)),
        (''summaries'', join ''\<newline>---\<newline>\<newline>'' (web_research_result state)),
        (''source_list'', source_list state)]"

definition finalize_answer ::
  "providers \<Rightarrow> Configuration \<Rightarrow> nat \<Rightarrow> OverallState \<Rightarrow> error + StateUpdate" where
  "finalize_answer P configurable n state =
     (case answer_prompt P n state of
        Inl e \<Rightarrow> Inl e
      | Inr formatted_prompt \<Rightarrow>
          (case invoke_llm P n (answer_model_name state configurable) formatted_prompt of
             Inl e \<Rightarrow> Inl e
           | Inr result_content \<Rightarrow>
               Inr (no_update\<lparr>upd_messages := Some [AIMessage result_content],
                               upd_sources_gathered := Some (sources_gathered state)\<rparr>)))"

subsection \<open>Start-up (lines 29-34)\<close>

text \<open>
  The statements the module runs when it is loaded, on the process environment as
  \<^verbatim>\<open>load_dotenv\<close> leaves it: the graph object is built (line 233) only when neither
  check raises.
\<close>

definition load_module :: "(string \<rightharpoonup> string) \<Rightarrow> error + unit" where
  "load_module env =
     (if env ''OPENROUTER_API_KEY'' = None then Inl (ValueError ''OPENROUTER_API_KEY is not set'')
      else if env ''TAVILY_API_KEY'' = None then Inl (ValueError ''TAVILY_API_KEY is not set'')
      else Inr ())"

subsection \<open>Running the graph (lines 205-233)\<close>

text \<open>
  The graph runs in steps. The nodes of a step are the ones that an edge or a dispatch
  of the step before names, and the updates the nodes of a step return are merged into
  the state before the next step; when nothing is named, the run ends. The wiring:
  the entry edge names \<^verbatim>\<open>generate_query\<close> (line 212); after it,
  \<^verbatim>\<open>continue_to_web_research\<close> names one \<^verbatim>\<open>web_research\<close> branch per dispatch
  (lines 214-218); the only edge into \<^verbatim>\<open>reflection\<close> comes from
  \<^verbatim>\<open>web_research\<close> (line 220), so \<^verbatim>\<open>reflection\<close> runs once after a step in
  which branches ran; after it, \<^verbatim>\<open>evaluate_research\<close> names
  \<^verbatim>\<open>finalize_answer\<close> or the branches of the next wave (lines 222-229);
  \<^verbatim>\<open>finalize_answer\<close> leads to the end (line 231). An exception in a node ends the
  run. The trace of a run lists, for each step, its node and the state after the merge.
\<close>

datatype node = Node_generate_query | Node_web_research | Node_reflection | Node_finalize_answer

datatype outcome = Ended OverallState | Raised error

type_synonym trace = "(node \<times> OverallState) list"

text \<open>The branches of one wave, each with its own input; the call numbers follow the dispatch order.\<close>

fun run_branches :: "providers \<Rightarrow> nat \<Rightarrow> send list \<Rightarrow> error + StateUpdate list" where
  "run_branches P n [] = Inr []"
| "run_branches P n (Send target arg # sends) =
     (case web_research P n arg of
        Inl e \<Rightarrow> Inl e
      | Inr u \<Rightarrow>
          (case run_branches P (Suc n) sends of
             Inl e \<Rightarrow> Inl e
           | Inr us \<Rightarrow> Inr (u # us)))"

definition after :: "trace \<Rightarrow> trace \<times> outcome \<Rightarrow> trace \<times> outcome" where
  "after steps r = (steps @ fst r, snd r)"

definition finalize_step ::
  "providers \<Rightarrow> Configuration \<Rightarrow> nat \<Rightarrow> OverallState \<Rightarrow> trace \<times> outcome" where
  "finalize_step P configurable n state =
     (case finalize_answer P configurable n state of
        Inl e \<Rightarrow> ([], Raised e)
      | Inr u \<Rightarrow>
          (let final = apply_update state u
           in ([(Node_finalize_answer, final)], Ended final)))"

text \<open>
  One wave and the reflection that follows it: the steps taken, and the route
  \<^verbatim>\<open>evaluate_research\<close> returns on the state reflection has written.
\<close>

definition research_wave ::
  "providers \<Rightarrow> Configuration \<Rightarrow> nat \<Rightarrow> OverallState \<Rightarrow> send list
     \<Rightarrow> trace \<times> (error + route \<times> OverallState)" where
  "research_wave P configurable n state sends =
     (case run_branches P n sends of
        Inl e \<Rightarrow> ([], Inl e)
      | Inr us \<Rightarrow>
          (let researched = apply_updates state us
           in case reflection P configurable (n + length sends) researched of
                Inl e \<Rightarrow> ([(Node_web_research, researched)], Inl e)
              | Inr u \<Rightarrow>
                  (let reflected = apply_update researched u;
                       steps = [(Node_web_research, researched), (Node_reflection, reflected)]
                   in case evaluate_research reflected configurable of
                        Inl e \<Rightarrow> (steps, Inl e)
                      | Inr r \<Rightarrow> (steps, Inr (r, reflected)))))"

text \<open>The loop counter as reflection reads it, and the loop ceiling as the router reads it.\<close>

definition loop_count :: "OverallState \<Rightarrow> int" where
  "loop_count state = (case research_loop_count state of None \<Rightarrow> 0 | Some c \<Rightarrow> c)"

definition max_loops :: "OverallState \<Rightarrow> Configuration \<Rightarrow> int" where
  "max_loops state configurable =
     (case max_research_loops state of
        Some m \<Rightarrow> m
      | None \<Rightarrow> cfg_max_research_loops configurable)"

text \<open>
  The loop counter and the loop ceiling across one wave: the facts the termination of the
  research loop rests on.
\<close>

lemma web_research_count: "web_research P n a = Inr u \<Longrightarrow> upd_research_loop_count u = None"
  by (auto simp: web_research_def no_update_def split: sum.splits)

lemma run_branches_count:
  "run_branches P n sends = Inr us \<Longrightarrow> u \<in> set us \<Longrightarrow> upd_research_loop_count u = None"
proof (induction sends arbitrary: n us)
  case Nil
  then show ?case by simp
next
  case (Cons s sends)
  obtain t a where s: "s = Send t a" by (cases s)
  from Cons.prems s obtain v vs where
    v: "web_research P n a = Inr v" and vs: "run_branches P (Suc n) sends = Inr vs"
    and us: "us = v # vs"
    by (auto split: sum.splits)
  from Cons.prems(2) us consider "u = v" | "u \<in> set vs" by auto
  then show ?case
  proof cases
    case 1
    with v show ?thesis by (simp add: web_research_count)
  next
    case 2
    with vs show ?thesis by (rule Cons.IH)
  qed
qed

lemma apply_update_keeps_count:
  "upd_research_loop_count u = None \<Longrightarrow>
     research_loop_count (apply_update st u) = research_loop_count st"
  by (simp add: apply_update_def)

lemma apply_update_max: "max_research_loops (apply_update st u) = max_research_loops st"
  by (simp add: apply_update_def)

lemma apply_updates_keeps_count:
  "(\<And>u. u \<in> set us \<Longrightarrow> upd_research_loop_count u = None) \<Longrightarrow>
     research_loop_count (apply_updates st us) = research_loop_count st"
  unfolding apply_updates_def
  by (induction us arbitrary: st) (simp_all add: apply_update_keeps_count)

lemma apply_updates_max: "max_research_loops (apply_updates st us) = max_research_loops st"
  unfolding apply_updates_def
  by (induction us arbitrary: st) (simp_all add: apply_update_max)

lemma reflection_count:
  "reflection P cfg n st = Inr u \<Longrightarrow> upd_research_loop_count u = Some (loop_count st + 1)"
  by (auto simp: reflection_def loop_count_def no_update_def Let_def split: sum.splits)

lemma evaluate_research_dispatch:
  "evaluate_research st cfg = Inr (Dispatch sends) \<Longrightarrow>
     \<exists>c. research_loop_count st = Some c \<and> c < max_loops st cfg"
  by (auto simp: evaluate_research_def max_loops_def Let_def split: if_splits option.splits)

lemma research_wave_routed:
  assumes "research_wave P cfg n st sends = (steps, Inr (r, reflected))"
  shows "\<exists>researched.
           steps = [(Node_web_research, researched), (Node_reflection, reflected)]
           \<and> research_loop_count researched = research_loop_count st
           \<and> max_research_loops researched = max_research_loops st
           \<and> research_loop_count reflected = Some (loop_count st + 1)
           \<and> max_research_loops reflected = max_research_loops st
           \<and> evaluate_research reflected cfg = Inr r"
proof -
  from assms obtain us u where
    us: "run_branches P n sends = Inr us" and
    u: "reflection P cfg (n + length sends) (apply_updates st us) = Inr u" and
    steps: "steps = [(Node_web_research, apply_updates st us),
                     (Node_reflection, apply_update (apply_updates st us) u)]" and
    refl: "reflected = apply_update (apply_updates st us) u" and
    r: "evaluate_research reflected cfg = Inr r"
    by (auto simp: research_wave_def Let_def split: sum.splits)
  have a: "research_loop_count (apply_updates st us) = research_loop_count st"
    using us by (simp add: apply_updates_keeps_count run_branches_count)
  have "research_loop_count reflected = Some (loop_count (apply_updates st us) + 1)"
    using reflection_count[OF u] by (simp add: refl apply_update_def)
  with a have "research_loop_count reflected = Some (loop_count st + 1)"
    by (simp add: loop_count_def)
  with a steps refl r show ?thesis
    by (simp add: apply_update_max apply_updates_max)
qed

lemma research_wave_decreases:
  assumes "research_wave P cfg n st sends = (steps, Inr (Dispatch follow_ups, reflected))"
  shows "nat (max_loops reflected cfg - loop_count reflected)
           < nat (max_loops st cfg - loop_count st)"
  using research_wave_routed[OF assms] evaluate_research_dispatch[of reflected cfg follow_ups]
  by (auto simp: loop_count_def max_loops_def)

text \<open>
  The research loop: a wave runs only when at least one branch was dispatched; the
  route after reflection either ends the loop or dispatches the next wave.
  \<^verbatim>\<open>evaluate_research\<close> returns no node name but \<^verbatim>\<open>finalize_answer\<close>
  (\<open>evaluate_research_route\<close> below); on any other name the model raises.
\<close>

function research_loop ::
  "providers \<Rightarrow> Configuration \<Rightarrow> nat \<Rightarrow> OverallState \<Rightarrow> send list \<Rightarrow> trace \<times> outcome" where
  "research_loop P configurable n state sends =
     (if sends = [] then ([], Ended state)
      else
        (case research_wave P configurable n state sends of
           (steps, Inl e) \<Rightarrow> (steps, Raised e)
         | (steps, Inr (Route name, reflected)) \<Rightarrow>
             if name = ''finalize_answer''
             then after steps (finalize_step P configurable (n + length sends + 1) reflected)
             else (steps, Raised (KeyError name))
         | (steps, Inr (Dispatch follow_ups, reflected)) \<Rightarrow>
             after steps
               (research_loop P configurable (n + length sends + 1) reflected follow_ups)))"
  by pat_completeness auto
termination
proof (relation "measure (\<lambda>(P, configurable, n, state, sends).
                   nat (max_loops state configurable - loop_count state))", goal_cases)
  case 1
  then show ?case by simp
next
  case (2 P configurable n state sends steps routed r rt reflected follow_ups)
  then have "research_wave P configurable n state sends
               = (steps, Inr (Dispatch follow_ups, reflected))"
    by simp
  from research_wave_decreases[OF this] show ?case
    by simp
qed

declare research_loop.simps [simp del]

text \<open>A run of the compiled graph on an input state: the trace and how the run ended.\<close>

definition run_graph :: "providers \<Rightarrow> Configuration \<Rightarrow> OverallState \<Rightarrow> trace \<times> outcome" where
  "run_graph P configurable input =
     (case generate_query P configurable 0 input of
        Inl e \<Rightarrow> ([], Raised e)
      | Inr u \<Rightarrow>
          (let generated = apply_update input u
           in after [(Node_generate_query, generated)]
                (research_loop P configurable 1 generated (continue_to_web_research generated))))"

text \<open>
  A run as a caller of the module gets it: the module is loaded first, and the graph
  exists only when loading did not raise.
\<close>

definition invoke_agent ::
  "(string \<rightharpoonup> string) \<Rightarrow> providers \<Rightarrow> Configuration \<Rightarrow> OverallState \<Rightarrow> trace \<times> outcome" where
  "invoke_agent env P configurable input =
     (case load_module env of
        Inl e \<Rightarrow> ([], Raised e)
      | Inr _ \<Rightarrow> run_graph P configurable input)"

subsection \<open>Concrete inputs\<close>

text \<open>
  A configuration, an input state holding only the user's question, a state as
  reflection leaves it, and step interfaces that answer every call the same way: the query
  writer with \<open>queries\<close>, the search tool with \<open>hits\<close>, reflection with
  \<open>sufficient\<close> and \<open>follow_ups\<close>.
\<close>

definition example_config :: Configuration where
  "example_config =
     \<lparr>number_of_initial_queries = 3, query_generator_model = ''writer'',
      cfg_reflection_model = ''reflector'', cfg_answer_model = ''answerer'',
      cfg_max_research_loops = 2\<rparr>"

definition example_input :: OverallState where
  "example_input =
     \<lparr>messages = [HumanMessage ''X''], search_query_acc = [], web_research_result = [],
      sources_gathered = [], query_list = [], is_sufficient = False, knowledge_gap = [],
      follow_up_queries = [], research_loop_count = None,
      initial_search_query_count = None, max_research_loops = None,
      reflection_model = None, answer_model = None\<rparr>"

definition example_reflected :: OverallState where
  "example_reflected =
     example_input\<lparr>follow_up_queries := [''a'', ''b''], research_loop_count := Some 1\<rparr>"

definition example_hit :: "string \<Rightarrow> source" where
  "example_hit name = \<lparr>title = name, url = ''u'', content = ''c''\<rparr>"

definition example_providers ::
  "string list \<Rightarrow> source list \<Rightarrow> bool \<Rightarrow> string list \<Rightarrow> providers" where
  "example_providers queries hits sufficient follow_ups =
     \<lparr>invoke_query_writer = (\<lambda>n model prompt. Inr \<lparr>query = queries, rationale = []\<rparr>),
      invoke_reflection =
        (\<lambda>n model prompt.
           Inr \<lparr>res_is_sufficient = sufficient, res_knowledge_gap = [],
                res_follow_up_queries = follow_ups\<rparr>),
      invoke_llm = (\<lambda>n model prompt. Inr ''answer''),
      tavily_invoke = (\<lambda>n q. Inr hits),
      get_current_date = (\<lambda>n. ''November 03, 2026''),
      get_research_topic = (\<lambda>msgs. ''X'')\<rparr>"


definition example_update :: "string \<Rightarrow> source list \<Rightarrow> StateUpdate" where
  "example_update q hits =
     no_update\<lparr>upd_web_research_result := Some [format_results hits],
               upd_sources_gathered := Some hits,
               upd_search_query := Some [q]\<rparr>"

definition insufficient_providers :: providers where
  "insufficient_providers =
     example_providers [''q''] [example_hit ''A'', example_hit ''B''] False [''f'']"



text \<open>
  Step interfaces that answer with what they were asked: the language model returns the
  model name and the prompt of the call.
\<close>

definition echo_providers :: providers where
  "echo_providers =
     \<lparr>invoke_query_writer = (\<lambda>n model prompt. Inr \<lparr>query = [prompt], rationale = model\<rparr>),
      invoke_reflection =
        (\<lambda>n model prompt.
           Inr \<lparr>res_is_sufficient = True, res_knowledge_gap = model,
                res_follow_up_queries = [prompt]\<rparr>),
      invoke_llm = (\<lambda>n model prompt. Inr model),
      tavily_invoke = (\<lambda>n q. Inr []),
      get_current_date = (\<lambda>n. ''November 03, 2026''),
      get_research_topic = (\<lambda>msgs. ''X'')\<rparr>"

subsection \<open>Observations on a run\<close>

text \<open>The entries a returned update adds to the two accumulators.\<close>

definition new_results :: "StateUpdate \<Rightarrow> string list" where
  "new_results u = (case upd_web_research_result u of None \<Rightarrow> [] | Some xs \<Rightarrow> xs)"

definition new_sources :: "StateUpdate \<Rightarrow> source list" where
  "new_sources u = (case upd_sources_gathered u of None \<Rightarrow> [] | Some xs \<Rightarrow> xs)"

text \<open>
  The accumulators of a later state extend those of an earlier one: what was stored is
  still there, in the same order, at the same positions.
\<close>

definition grows :: "OverallState \<Rightarrow> OverallState \<Rightarrow> bool" where
  "grows s t \<longleftrightarrow>
     prefix (web_research_result s) (web_research_result t)
     \<and> prefix (sources_gathered s) (sources_gathered t)"

text \<open>The number of fan-out waves of a trace, and whether a run ended in \<^verbatim>\<open>finalize_answer\<close>.\<close>

definition waves :: "trace \<Rightarrow> nat" where
  "waves tr = length (filter (\<lambda>step. fst step = Node_web_research) tr)"

definition reached_finalize :: "trace \<times> outcome \<Rightarrow> bool" where
  "reached_finalize r =
     (case rev (fst r) of
        [] \<Rightarrow> False
      | step # earlier \<Rightarrow> fst step = Node_finalize_answer)"

text \<open>No routing function of the trace returned an empty list of dispatches.\<close>

definition dispatched_nothing :: "Configuration \<Rightarrow> node \<times> OverallState \<Rightarrow> bool" where
  "dispatched_nothing configurable step =
     (if fst step = Node_generate_query then continue_to_web_research (snd step) = []
      else if fst step = Node_reflection
           then evaluate_research (snd step) configurable = Inr (Dispatch [])
           else False)"

definition every_dispatch_nonempty :: "Configuration \<Rightarrow> trace \<Rightarrow> bool" where
  "every_dispatch_nonempty configurable tr =
     (filter (dispatched_nothing configurable) tr = [])"

text \<open>
  One state follows another in a run: the accumulators grow, the loop counter does not
  decrease, the loop ceiling of the state stays.
\<close>

definition advances :: "OverallState \<Rightarrow> OverallState \<Rightarrow> bool" where
  "advances s t \<longleftrightarrow>
     grows s t \<and> loop_count s \<le> loop_count t
     \<and> max_research_loops t = max_research_loops s"

section \<open>Properties\<close>

subsection \<open>Auxiliary facts\<close>

text \<open>The results of one wave, case by case, and induction over the research loop.\<close>

lemma evaluate_research_route:
  "evaluate_research st cfg = Inr (Route name) \<Longrightarrow> name = ''finalize_answer''"
  by (auto simp: evaluate_research_def Let_def split: if_splits option.splits)

lemma research_wave_cases:
  assumes "research_wave P cfg n st sends = (steps, res)"
  obtains
    (branch_failed) e where
      "run_branches P n sends = Inl e" "steps = []" "res = Inl e"
  | (reflection_failed) us e where
      "run_branches P n sends = Inr us"
      "reflection P cfg (n + length sends) (apply_updates st us) = Inl e"
      "steps = [(Node_web_research, apply_updates st us)]" "res = Inl e"
  | (router_failed) us u e where
      "run_branches P n sends = Inr us"
      "reflection P cfg (n + length sends) (apply_updates st us) = Inr u"
      "steps = [(Node_web_research, apply_updates st us),
                (Node_reflection, apply_update (apply_updates st us) u)]"
      "evaluate_research (apply_update (apply_updates st us) u) cfg = Inl e"
      "res = Inl e"
  | (routed) us u r where
      "run_branches P n sends = Inr us"
      "reflection P cfg (n + length sends) (apply_updates st us) = Inr u"
      "steps = [(Node_web_research, apply_updates st us),
                (Node_reflection, apply_update (apply_updates st us) u)]"
      "evaluate_research (apply_update (apply_updates st us) u) cfg = Inr r"
      "res = Inr (r, apply_update (apply_updates st us) u)"
  using assms by (auto simp: research_wave_def Let_def split: sum.splits)

lemma research_loop_rule [case_names stop failed finalize again]:
  assumes stop: "\<And>n st. Q n st [] ([], Ended st)"
    and failed: "\<And>n st sends steps e.
       sends \<noteq> [] \<Longrightarrow> research_wave P cfg n st sends = (steps, Inl e) \<Longrightarrow>
       Q n st sends (steps, Raised e)"
    and finalize: "\<And>n st sends steps reflected.
       sends \<noteq> [] \<Longrightarrow>
       research_wave P cfg n st sends = (steps, Inr (Route ''finalize_answer'', reflected)) \<Longrightarrow>
       Q n st sends (after steps (finalize_step P cfg (n + length sends + 1) reflected))"
    and again: "\<And>n st sends steps reflected follow_ups.
       sends \<noteq> [] \<Longrightarrow>
       research_wave P cfg n st sends = (steps, Inr (Dispatch follow_ups, reflected)) \<Longrightarrow>
       Q (n + length sends + 1) reflected follow_ups
         (research_loop P cfg (n + length sends + 1) reflected follow_ups) \<Longrightarrow>
       Q n st sends (after steps (research_loop P cfg (n + length sends + 1) reflected follow_ups))"
  shows "Q n st sends (research_loop P cfg n st sends)"
  using assms
proof (induction P cfg n st sends rule: research_loop.induct)
  case (1 P cfg n st sends)
  note loop = research_loop.simps[of P cfg n st sends]
  show ?case
  proof (cases "sends = []")
    case True
    with "1.prems"(1) show ?thesis by (subst research_loop.simps) simp
  next
    case False
    obtain steps res where w: "research_wave P cfg n st sends = (steps, res)"
      by (cases "research_wave P cfg n st sends")
    show ?thesis
    proof (cases res)
      case (Inl e)
      with False w have "research_loop P cfg n st sends = (steps, Raised e)"
        by (simp add: loop)
      with "1.prems"(2)[OF False] w Inl show ?thesis by simp
    next
      case (Inr pr)
      obtain r reflected where pr: "pr = (r, reflected)" by (cases pr)
      show ?thesis
      proof (cases r)
        case (Route name)
        from w Inr pr Route have name: "name = ''finalize_answer''"
          by (auto elim!: research_wave_cases dest: evaluate_research_route)
        with False w Inr pr Route have
          "research_loop P cfg n st sends
             = after steps (finalize_step P cfg (n + length sends + 1) reflected)"
          by (simp add: loop)
        with "1.prems"(3)[OF False] w Inr pr Route name show ?thesis by simp
      next
        case (Dispatch follow_ups)
        with w Inr pr have w': "research_wave P cfg n st sends
                                  = (steps, Inr (Dispatch follow_ups, reflected))"
          by simp
        have eq: "research_loop P cfg n st sends
             = after steps (research_loop P cfg (n + length sends + 1) reflected follow_ups)"
          using False w' by (simp add: loop)
        have "Q (n + length sends + 1) reflected follow_ups
                (research_loop P cfg (n + length sends + 1) reflected follow_ups)"
          using "1.IH"[OF False w'[symmetric] refl refl refl] "1.prems" by blast
        with "1.prems"(4)[OF False w'] eq show ?thesis by simp
      qed
    qed
  qed
qed

text \<open>The prompts are always built; what an update adds to the accumulators.\<close>

lemma query_prompt_ok: "\<exists>p. query_prompt P cfg n st = Inr p"
  by (simp add: query_prompt_def query_writer_instructions_def)

lemma reflection_prompt_ok: "\<exists>p. reflection_prompt P n st = Inr p"
  by (simp add: reflection_prompt_def reflection_instructions_def)

lemma answer_prompt_ok: "\<exists>p. answer_prompt P n st = Inr p"
  by (simp add: answer_prompt_def answer_instructions_def)

lemma apply_update_results:
  "web_research_result (apply_update st u) = web_research_result st @ new_results u"
  by (simp add: apply_update_def append_to_def new_results_def split: option.splits)

lemma apply_update_sources:
  "sources_gathered (apply_update st u) = sources_gathered st @ new_sources u"
  by (simp add: apply_update_def append_to_def new_sources_def split: option.splits)

lemma apply_updates_results:
  "web_research_result (apply_updates st us)
     = web_research_result st @ concat (map new_results us)"
  unfolding apply_updates_def
  by (induction us arbitrary: st) (simp_all add: apply_update_results)

lemma apply_updates_sources:
  "sources_gathered (apply_updates st us)
     = sources_gathered st @ concat (map new_sources us)"
  unfolding apply_updates_def
  by (induction us arbitrary: st) (simp_all add: apply_update_sources)



lemma grows_refl: "grows s s"
  by (simp add: grows_def)

lemma grows_trans: "grows s t \<Longrightarrow> grows t v \<Longrightarrow> grows s v"
  by (auto simp: grows_def)

lemma grows_apply_update: "grows st (apply_update st u)"
  by (simp add: grows_def apply_update_results apply_update_sources)

lemma grows_apply_updates: "grows st (apply_updates st us)"
  by (simp add: grows_def apply_updates_results apply_updates_sources)



text \<open>Every state of a run advances on the ones before it.\<close>

lemma chain_append:
  assumes tr: "transp R"
    and xs: "sorted_wrt R xs" and ne: "xs \<noteq> []" and ys: "sorted_wrt R (last xs # ys)"
  shows "sorted_wrt R (xs @ ys)"
proof -
  from ne obtain bs b where split: "xs = bs @ [b]"
    by (metis append_butlast_last_id)
  with xs have before: "\<forall>x \<in> set bs. R x b"
    by (simp add: sorted_wrt_append)
  from ys split have after: "\<forall>y \<in> set ys. R b y" and sys: "sorted_wrt R ys"
    by simp_all
  have "R x y" if "x \<in> set xs" "y \<in> set ys" for x y
  proof (cases "x = b")
    case True
    with after that show ?thesis by simp
  next
    case False
    with that split have "x \<in> set bs" by simp
    with before after that transpD[OF tr] show ?thesis by blast
  qed
  with xs sys show ?thesis by (simp add: sorted_wrt_append)
qed

lemma advances_trans: "advances s t \<Longrightarrow> advances t v \<Longrightarrow> advances s v"
  by (auto simp: advances_def intro: grows_trans)

lemma transp_advances: "transp advances"
  by (rule transpI) (rule advances_trans)

lemma advances_wave:
  "run_branches P n sends = Inr us \<Longrightarrow> advances st (apply_updates st us)"
  by (simp add: advances_def grows_apply_updates loop_count_def apply_updates_max
        apply_updates_keeps_count run_branches_count)

lemma advances_reflection:
  assumes "reflection P cfg n st = Inr u"
  shows "advances st (apply_update st u)"
proof -
  have "research_loop_count (apply_update st u) = Some (loop_count st + 1)"
    using reflection_count[OF assms] by (simp add: apply_update_def)
  then have "loop_count st \<le> loop_count (apply_update st u)"
    by (simp add: loop_count_def)
  then show ?thesis
    by (simp add: advances_def grows_apply_update apply_update_max)
qed

lemma finalize_answer_count:
  "finalize_answer P cfg n st = Inr u \<Longrightarrow> upd_research_loop_count u = None"
  by (auto simp: finalize_answer_def no_update_def split: sum.splits)

lemma generate_query_count:
  "generate_query P cfg n st = Inr u \<Longrightarrow> upd_research_loop_count u = None"
  by (auto simp: generate_query_def no_update_def split: sum.splits)

lemma advances_keeps:
  "upd_research_loop_count u = None \<Longrightarrow> advances st (apply_update st u)"
  by (simp add: advances_def grows_apply_update loop_count_def apply_update_max
        apply_update_keeps_count)

lemma research_wave_advances:
  assumes "research_wave P cfg n st sends = (steps, res)"
  shows "sorted_wrt advances (st # map snd steps)"
    and "res = Inr (r, reflected) \<Longrightarrow> last (st # map snd steps) = reflected"
  using assms
  by (auto elim!: research_wave_cases
           simp: advances_wave advances_reflection
           intro: advances_trans[OF advances_wave advances_reflection])

lemma finalize_step_advances:
  "sorted_wrt advances (st # map snd (fst (finalize_step P cfg n st)))"
  by (auto simp: finalize_step_def Let_def advances_keeps finalize_answer_count
           split: sum.splits)

lemma fst_after: "fst (after steps r) = steps @ fst r"
  by (simp add: after_def)

lemma snd_after: "snd (after steps r) = snd r"
  by (simp add: after_def)

lemma research_loop_advances:
  "sorted_wrt advances (st # map snd (fst (research_loop P cfg n st sends)))"
proof (induction n st sends rule: research_loop_rule[where P = P and cfg = cfg])
  case (stop n st)
  then show ?case by simp
next
  case (failed n st sends steps e)
  from research_wave_advances(1)[OF failed(2)] show ?case by simp
next
  case (finalize n st sends steps reflected)
  let ?rest = "map snd (fst (finalize_step P cfg (n + length sends + 1) reflected))"
  from research_wave_advances[OF finalize(2)] have
    a: "sorted_wrt advances (st # map snd steps)" and
    b: "last (st # map snd steps) = reflected"
    by simp_all
  have "sorted_wrt advances ((st # map snd steps) @ ?rest)"
    using a by (rule chain_append[OF transp_advances]) (simp_all only: b finalize_step_advances, simp)
  then show ?case by (simp add: fst_after)
next
  case (again n st sends steps reflected follow_ups)
  let ?rest = "map snd (fst (research_loop P cfg (n + length sends + 1) reflected follow_ups))"
  from research_wave_advances[OF again(2)] have
    a: "sorted_wrt advances (st # map snd steps)" and
    b: "last (st # map snd steps) = reflected"
    by simp_all
  have "sorted_wrt advances ((st # map snd steps) @ ?rest)"
    using a by (rule chain_append[OF transp_advances]) (simp_all only: b again(3), simp)
  then show ?case by (simp add: fst_after)
qed

lemma run_graph_advances:
  "sorted_wrt advances (input # map snd (fst (run_graph P cfg input)))"
proof (cases "generate_query P cfg 0 input")
  case (Inl e)
  then show ?thesis by (simp add: run_graph_def)
next
  case (Inr u)
  let ?g = "apply_update input u"
  let ?rest = "map snd (fst (research_loop P cfg 1 ?g (continue_to_web_research ?g)))"
  have g: "sorted_wrt advances [input, ?g]"
    using Inr by (simp add: advances_keeps generate_query_count)
  have "sorted_wrt advances ([input, ?g] @ ?rest)"
    using g research_loop_advances[of ?g P cfg 1 "continue_to_web_research ?g"]
    by (intro chain_append[OF transp_advances]) simp_all
  with Inr show ?thesis by (simp add: run_graph_def Let_def fst_after)
qed

text \<open>The nodes on the step interfaces of the concrete inputs.\<close>

lemma generate_query_example:
  "generate_query (example_providers qs hits suff fu) cfg n st
     = Inr (no_update\<lparr>upd_query_list := Some qs\<rparr>)"
proof -
  obtain p where "query_prompt (example_providers qs hits suff fu) cfg n st = Inr p"
    using query_prompt_ok by blast
  then show ?thesis by (simp add: generate_query_def example_providers_def)
qed

lemma web_research_example:
  "web_research (example_providers qs hits suff fu) n a
     = Inr (no_update\<lparr>upd_web_research_result := Some [format_results hits],
                      upd_sources_gathered := Some hits,
                      upd_search_query := Some [search_query a]\<rparr>)"
  by (simp add: web_research_def example_providers_def)

lemma reflection_example:
  "reflection (example_providers qs hits suff fu) cfg n st
     = Inr (no_update\<lparr>upd_is_sufficient := Some suff, upd_knowledge_gap := Some [],
                      upd_follow_up_queries := Some fu,
                      upd_research_loop_count := Some (loop_count st + 1)\<rparr>)"
proof -
  obtain p where "reflection_prompt (example_providers qs hits suff fu) n st = Inr p"
    using reflection_prompt_ok by blast
  then show ?thesis by (simp add: reflection_def example_providers_def loop_count_def)
qed

lemma finalize_answer_example:
  "finalize_answer (example_providers qs hits suff fu) cfg n st
     = Inr (no_update\<lparr>upd_messages := Some [AIMessage ''answer''],
                      upd_sources_gathered := Some (sources_gathered st)\<rparr>)"
proof -
  obtain p where "answer_prompt (example_providers qs hits suff fu) n st = Inr p"
    using answer_prompt_ok by blast
  then show ?thesis by (simp add: finalize_answer_def example_providers_def)
qed


lemma web_research_keeps_count:
  "web_research P n a = Inr u \<Longrightarrow>
     research_loop_count (apply_update st u) = research_loop_count st"
  by (simp add: apply_update_keeps_count web_research_count)

text \<open>The loop counter and the number of waves are bounded; a run that dispatches ends in the last node.\<close>

lemma max_loops_advances: "advances s t \<Longrightarrow> max_loops t cfg = max_loops s cfg"
  by (simp add: advances_def max_loops_def)

lemma research_wave_counts:
  assumes "research_wave P cfg n st sends = (steps, res)"
  shows "\<forall>step \<in> set steps. loop_count (snd step) \<le> loop_count st + 1"
    and "waves steps \<le> 1"
proof -
  have r: "loop_count (apply_update s u) = loop_count s + 1"
    if "reflection P cfg k s = Inr u" for s u k
    using reflection_count[OF that] by (simp add: apply_update_def loop_count_def)
  have w: "loop_count (apply_updates st us) = loop_count st"
    if "run_branches P n sends = Inr us" for us
    using that by (simp add: loop_count_def apply_updates_keeps_count run_branches_count)
  from assms show "\<forall>step \<in> set steps. loop_count (snd step) \<le> loop_count st + 1"
    by (auto elim!: research_wave_cases simp: r w)
  from assms show "waves steps \<le> 1"
    by (auto elim!: research_wave_cases simp: waves_def)
qed

lemma research_wave_routed_counts:
  assumes "research_wave P cfg n st sends = (steps, Inr (r, reflected))"
  shows "waves steps = 1" and "loop_count reflected = loop_count st + 1"
    and "max_loops reflected cfg = max_loops st cfg"
    and "evaluate_research reflected cfg = Inr r"
    and "(Node_reflection, reflected) \<in> set steps"
    and "steps \<noteq> []"
  using research_wave_routed[OF assms]
  by (auto simp: waves_def loop_count_def max_loops_def)

lemma finalize_step_counts:
  "\<forall>step \<in> set (fst (finalize_step P cfg n st)). loop_count (snd step) = loop_count st"
  "waves (fst (finalize_step P cfg n st)) = 0"
  by (auto simp: finalize_step_def Let_def waves_def loop_count_def
        apply_update_keeps_count finalize_answer_count split: sum.splits)

lemma waves_append: "waves (xs @ ys) = waves xs + waves ys"
  by (simp add: waves_def)

lemma research_loop_bounded:
  "(\<forall>step \<in> set (fst (research_loop P cfg n st sends)).
       loop_count (snd step) \<le> max (max_loops st cfg) (loop_count st + 1))
   \<and> waves (fst (research_loop P cfg n st sends))
       \<le> max 1 (nat (max_loops st cfg - loop_count st))"
proof (induction n st sends rule: research_loop_rule[where P = P and cfg = cfg])
  case (stop n st)
  then show ?case by (simp add: waves_def)
next
  case (failed n st sends steps e)
  from research_wave_counts[OF failed(2)] show ?case by fastforce
next
  case (finalize n st sends steps reflected)
  from research_wave_counts[OF finalize(2)] research_wave_routed_counts(1,2)[OF finalize(2)]
    finalize_step_counts[of P cfg "n + length sends + 1" reflected]
  show ?case by (fastforce simp: fst_after waves_append)
next
  case (again n st sends steps reflected follow_ups)
  note w = research_wave_routed_counts[OF again(2)]
  from evaluate_research_dispatch[OF w(4)] w(2,3)
  have lt: "loop_count st + 1 < max_loops st cfg"
    by (auto simp: loop_count_def)
  from again(3) w(2,3) lt have
    rest: "\<forall>step \<in> set (fst (research_loop P cfg (n + length sends + 1) reflected follow_ups)).
             loop_count (snd step) \<le> max_loops st cfg"
    and wrest: "waves (fst (research_loop P cfg (n + length sends + 1) reflected follow_ups))
             \<le> nat (max_loops st cfg - loop_count st - 1)"
    by (auto simp: max_def split: if_splits)
  from research_wave_counts(1)[OF again(2)] rest lt
  have a: "\<forall>step \<in> set (steps @ fst (research_loop P cfg (n + length sends + 1) reflected follow_ups)).
          loop_count (snd step) \<le> max (max_loops st cfg) (loop_count st + 1)"
    by fastforce
  from w(1) wrest lt
  have b: "waves (steps @ fst (research_loop P cfg (n + length sends + 1) reflected follow_ups))
          \<le> max 1 (nat (max_loops st cfg - loop_count st))"
    by (simp add: waves_append)
  from a b show ?case by (simp only: fst_after)
qed

lemma reached_finalize_after:
  "reached_finalize r \<Longrightarrow> reached_finalize (after steps r)"
  by (cases "fst r" rule: rev_cases) (simp_all add: reached_finalize_def after_def)

lemma every_dispatch_nonempty_append:
  "every_dispatch_nonempty cfg (xs @ ys)
     \<longleftrightarrow> every_dispatch_nonempty cfg xs \<and> every_dispatch_nonempty cfg ys"
  by (simp add: every_dispatch_nonempty_def)

lemma every_dispatch_nonempty_reflection:
  "every_dispatch_nonempty cfg tr \<Longrightarrow> (Node_reflection, s) \<in> set tr \<Longrightarrow>
     evaluate_research s cfg \<noteq> Inr (Dispatch [])"
  by (auto simp: every_dispatch_nonempty_def dispatched_nothing_def filter_empty_conv)

lemma finalize_step_ended:
  "snd (finalize_step P cfg n st) = Ended final \<Longrightarrow>
     reached_finalize (finalize_step P cfg n st)"
  by (auto simp: finalize_step_def Let_def reached_finalize_def split: sum.splits)

lemma research_loop_reaches_finalize:
  "sends \<noteq> [] \<longrightarrow>
   (\<forall>final. snd (research_loop P cfg n st sends) = Ended final \<longrightarrow>
      every_dispatch_nonempty cfg (fst (research_loop P cfg n st sends)) \<longrightarrow>
      reached_finalize (research_loop P cfg n st sends))"
proof (induction n st sends rule: research_loop_rule[where P = P and cfg = cfg])
  case (stop n st)
  then show ?case by simp
next
  case (failed n st sends steps e)
  then show ?case by simp
next
  case (finalize n st sends steps reflected)
  then show ?case
    by (auto simp: snd_after intro: reached_finalize_after finalize_step_ended)
next
  case (again n st sends steps reflected follow_ups)
  note w = research_wave_routed_counts[OF again(2)]
  show ?case
  proof (intro impI allI)
    fix final
    let ?rest = "research_loop P cfg (n + length sends + 1) reflected follow_ups"
    assume e: "snd (after steps ?rest) = Ended final"
      and d: "every_dispatch_nonempty cfg (fst (after steps ?rest))"
    from d have d1: "every_dispatch_nonempty cfg steps"
      and d2: "every_dispatch_nonempty cfg (fst ?rest)"
      by (simp_all add: fst_after every_dispatch_nonempty_append)
    from every_dispatch_nonempty_reflection[OF d1 w(5)] w(4) have "follow_ups \<noteq> []"
      by auto
    with again(3) e d2 have "reached_finalize ?rest"
      by (simp add: snd_after)
    then show "reached_finalize (after steps ?rest)"
      by (rule reached_finalize_after)
  qed
qed

lemma run_graph_bounded:
  "(\<forall>step \<in> set (fst (run_graph P cfg input)).
       loop_count (snd step) \<le> max (max_loops input cfg) (loop_count input + 1))
   \<and> waves (fst (run_graph P cfg input))
       \<le> max 1 (nat (max_loops input cfg - loop_count input))"
proof (cases "generate_query P cfg 0 input")
  case (Inl e)
  then show ?thesis by (simp add: run_graph_def waves_def)
next
  case (Inr u)
  let ?g = "apply_update input u"
  have g: "advances input ?g" "loop_count ?g = loop_count input"
    using Inr by (simp_all add: advances_keeps generate_query_count loop_count_def
                    apply_update_keeps_count)
  from research_loop_bounded[of P cfg 1 ?g "continue_to_web_research ?g"]
    g(2) max_loops_advances[OF g(1), of cfg] Inr
  show ?thesis
    by (auto simp: run_graph_def Let_def fst_after waves_def)
qed

lemma run_graph_reaches_finalize:
  assumes "snd (run_graph P cfg input) = Ended final"
    and "every_dispatch_nonempty cfg (fst (run_graph P cfg input))"
  shows "reached_finalize (run_graph P cfg input)"
proof (cases "generate_query P cfg 0 input")
  case (Inl e)
  with assms(1) show ?thesis by (simp add: run_graph_def)
next
  case (Inr u)
  let ?g = "apply_update input u"
  let ?rest = "research_loop P cfg 1 ?g (continue_to_web_research ?g)"
  from Inr have run: "run_graph P cfg input = after [(Node_generate_query, ?g)] ?rest"
    by (simp add: run_graph_def Let_def)
  from assms(2) have "continue_to_web_research ?g \<noteq> []"
    and "every_dispatch_nonempty cfg (fst ?rest)"
    by (auto simp: run fst_after every_dispatch_nonempty_def dispatched_nothing_def
             split: if_splits)
  with research_loop_reaches_finalize[of "continue_to_web_research ?g" P cfg 1 ?g] assms(1)
  have "reached_finalize ?rest" by (simp add: run snd_after)
  then show ?thesis unfolding run by (rule reached_finalize_after)
qed

text \<open>Two concrete runs in which reflection never finds the results sufficient.\<close>

lemmas example_run_simps =
  run_graph_def generate_query_example Let_def continue_to_web_research_def
  research_loop.simps research_wave_def web_research_example reflection_example
  finalize_step_def finalize_answer_example after_def evaluate_research_def
  apply_update_def apply_updates_def no_update_def append_to_def overwrite_def
  example_input_def example_config_def loop_count_def insufficient_providers_def

lemma insufficient_run_no_loops:
  "map (\<lambda>step. (fst step, loop_count (snd step)))
     (fst (run_graph insufficient_providers (example_config\<lparr>cfg_max_research_loops := 0\<rparr>)
              example_input))
   = [(Node_generate_query, 0), (Node_web_research, 0), (Node_reflection, 1),
      (Node_finalize_answer, 1)]"
  by (simp add: example_run_simps)

lemma insufficient_run_ended:
  "\<exists>final. snd (run_graph insufficient_providers example_config example_input) = Ended final"
  by (simp add: example_run_simps)

lemma insufficient_run_dispatches:
  "every_dispatch_nonempty example_config
     (fst (run_graph insufficient_providers example_config example_input))"
  by (simp add: every_dispatch_nonempty_def dispatched_nothing_def example_run_simps)









text \<open>The prompt of the query writer, with the number of queries, the date and the topic in it.\<close>

lemma query_prompt_shape:
  "\<exists>pre mid rest. \<forall>P cfg n st.
     query_prompt P cfg n st
       = Inr (pre @ ''- Don't produce more than '' @ str_int (number_queries st cfg)
              @ '' queries.\<newline>'' @ mid @ ''The current date is '' @ get_current_date P n
              @ ''.\<newline>'' @ rest @ ''Context: '' @ get_research_topic P (messages st))"
proof -
  let ?text = "\<lambda>segs. concat (map (\<lambda>seg. case seg of Lit s \<Rightarrow> s | Field f \<Rightarrow> []) segs)"
  let ?pre = "?text (take 5 query_writer_instructions)"
  let ?mid = "?text (take 2 (drop 8 query_writer_instructions))
              @ ''- Query should ensure that the most current information is gathered. ''"
  let ?rest = "?text (take 16 (drop 13 query_writer_instructions))"
  have "\<forall>P cfg n st.
     query_prompt P cfg n st
       = Inr (?pre @ ''- Don't produce more than '' @ str_int (number_queries st cfg)
              @ '' queries.\<newline>'' @ ?mid @ ''The current date is '' @ get_current_date P n
              @ ''.\<newline>'' @ ?rest @ ''Context: '' @ get_research_topic P (messages st))"
    by (simp add: query_prompt_def query_writer_instructions_def)
  then show ?thesis by blast
qed

subsection \<open>C1: the router after reflection\<close>

text \<open>
  C1. For every state that reflection has written (the loop counter is present, with
  value \<open>c\<close>), \<^verbatim>\<open>evaluate_research\<close> returns \<^verbatim>\<open>finalize_answer\<close> if and only if
  \<^verbatim>\<open>is_sufficient\<close> holds or \<open>c\<close> has reached the loop ceiling (the state's
  \<^verbatim>\<open>max_research_loops\<close> when present, else the configured default; the ceiling is
  inclusive); otherwise it returns one \<^verbatim>\<open>web_research\<close> dispatch per entry of
  \<^verbatim>\<open>follow_up_queries\<close>, in list order, each carrying that query as its input.
\<close>

theorem evaluate_research_routes:
  assumes "research_loop_count state = Some c"
  shows "(evaluate_research state configurable = Inr (Route ''finalize_answer'')
            \<longleftrightarrow> (is_sufficient state
                  \<or> c \<ge> (case max_research_loops state of
                            Some m \<Rightarrow> m
                          | None \<Rightarrow> cfg_max_research_loops configurable)))
       \<and> (evaluate_research state configurable \<noteq> Inr (Route ''finalize_answer'')
            \<longrightarrow> evaluate_research state configurable =
                  Inr (Dispatch (map (\<lambda>q. Send ''web_research'' \<lparr>search_query = q\<rparr>)
                                     (follow_up_queries state))))"
  using assms by (simp add: evaluate_research_def Let_def)

theorem evaluate_research_routes_witness:
  "research_loop_count example_reflected = Some 1
   \<and> evaluate_research example_reflected example_config =
       Inr (Dispatch [Send ''web_research'' \<lparr>search_query = ''a''\<rparr>,
                      Send ''web_research'' \<lparr>search_query = ''b''\<rparr>])"
  using evaluate_research_routes [of example_reflected 1 example_config]
  by (simp add: example_reflected_def example_input_def example_config_def)

subsection \<open>C2: the loop ceiling\<close>

text \<open>
  C2, as stated, fails for a loop ceiling of 0: the first reflection raises the counter
  to 1 before the router compares it, so the state reflection leaves has a counter above
  the ceiling.
\<close>

theorem loop_counter_exceeds_zero_ceiling_counterexample:
  "\<not> (\<forall>P configurable input.
         \<forall>step \<in> set (fst (run_graph P configurable input)).
           loop_count (snd step) \<le> max_loops (snd step) configurable)"
proof
  let ?cfg = "example_config\<lparr>cfg_max_research_loops := 0\<rparr>"
  let ?tr = "fst (run_graph insufficient_providers ?cfg example_input)"
  assume "\<forall>P configurable input.
         \<forall>step \<in> set (fst (run_graph P configurable input)).
           loop_count (snd step) \<le> max_loops (snd step) configurable"
  then have all: "\<forall>step \<in> set ?tr. loop_count (snd step) \<le> max_loops (snd step) ?cfg"
    by blast
  have "(Node_reflection, 1) \<in> set (map (\<lambda>step. (fst step, loop_count (snd step))) ?tr)"
    by (simp only: insufficient_run_no_loops) simp
  then obtain step where s: "step \<in> set ?tr" "loop_count (snd step) = 1"
    by auto
  have "max_loops (snd step) ?cfg = max_loops example_input ?cfg"
    using run_graph_advances[of example_input insufficient_providers ?cfg] s(1)
    by (auto intro: max_loops_advances)
  then have "max_loops (snd step) ?cfg = 0"
    by (simp add: max_loops_def example_input_def example_config_def)
  with all s show False by fastforce
qed

text \<open>
  C2, amended. For every run that starts with the loop counter below the ceiling (a
  fresh run has no counter, which reads as 0, so the ceiling is at least 1): at every
  state of the run the counter is at most the ceiling, which never changes; the run takes
  at most ceiling minus initial counter fan-out waves; and if the run ends without an
  error and no routing function of it returned an empty list of dispatches, its last
  node is \<^verbatim>\<open>finalize_answer\<close>. The run function is total: every run ends.
\<close>

theorem loop_counter_bounded_and_run_ends:
  assumes "loop_count input < max_loops input configurable"
  shows "(\<forall>step \<in> set (fst (run_graph P configurable input)).
            loop_count (snd step) \<le> max_loops (snd step) configurable
            \<and> max_loops (snd step) configurable = max_loops input configurable)
       \<and> waves (fst (run_graph P configurable input))
           \<le> nat (max_loops input configurable - loop_count input)
       \<and> (\<forall>final. snd (run_graph P configurable input) = Ended final \<longrightarrow>
            every_dispatch_nonempty configurable (fst (run_graph P configurable input)) \<longrightarrow>
            reached_finalize (run_graph P configurable input))"
proof -
  have m: "max_loops (snd step) configurable = max_loops input configurable"
    if "step \<in> set (fst (run_graph P configurable input))" for step
    using run_graph_advances[of input P configurable] that
    by (auto intro: max_loops_advances)
  from run_graph_bounded[of P configurable input] assms m
  have a: "\<forall>step \<in> set (fst (run_graph P configurable input)).
            loop_count (snd step) \<le> max_loops (snd step) configurable
            \<and> max_loops (snd step) configurable = max_loops input configurable"
    by (auto simp: max_def split: if_splits)
  from run_graph_bounded[of P configurable input] assms
  have b: "waves (fst (run_graph P configurable input))
           \<le> nat (max_loops input configurable - loop_count input)"
    by (auto simp: max_def split: if_splits)
  from a b run_graph_reaches_finalize[of P configurable input] show ?thesis by blast
qed

theorem loop_counter_bounded_and_run_ends_witness:
  "loop_count example_input < max_loops example_input example_config
   \<and> waves (fst (run_graph insufficient_providers example_config example_input)) \<le> 2
   \<and> reached_finalize (run_graph insufficient_providers example_config example_input)"
proof -
  have h: "loop_count example_input < max_loops example_input example_config"
    by (simp add: loop_count_def max_loops_def example_input_def example_config_def)
  have n: "nat (max_loops example_input example_config - loop_count example_input) = 2"
    by (simp add: loop_count_def max_loops_def example_input_def example_config_def)
  from loop_counter_bounded_and_run_ends[OF h, of insufficient_providers]
    insufficient_run_ended insufficient_run_dispatches h n
  show ?thesis by auto
qed

subsection \<open>C3: what a wave adds to the accumulators\<close>




subsection \<open>C4: an empty query list\<close>

text \<open>
  C4. When \<^verbatim>\<open>generate_query\<close> returns an empty \<^verbatim>\<open>query_list\<close>,
  \<^verbatim>\<open>continue_to_web_research\<close> dispatches nothing; no edge leads from
  \<^verbatim>\<open>generate_query\<close> to \<^verbatim>\<open>reflection\<close>, so the run ends right after
  \<^verbatim>\<open>generate_query\<close>: no branch runs, \<^verbatim>\<open>reflection\<close> and
  \<^verbatim>\<open>finalize_answer\<close> do not run, and the conversation gets no answer.
\<close>

theorem empty_query_list_ends_run:
  assumes "generate_query P configurable 0 input = Inr u" and "upd_query_list u = Some []"
  shows "run_graph P configurable input
           = ([(Node_generate_query, apply_update input u)], Ended (apply_update input u))
       \<and> \<not> reached_finalize (run_graph P configurable input)
       \<and> Node_reflection \<notin> fst ` set (fst (run_graph P configurable input))
       \<and> messages (apply_update input u) = messages input"
proof -
  from assms(2) have q: "query_list (apply_update input u) = []"
    by (simp add: apply_update_def overwrite_def)
  from assms(1) have "upd_messages u = None"
    by (auto simp: generate_query_def no_update_def split: sum.splits)
  then have m: "messages (apply_update input u) = messages input"
    by (simp add: apply_update_def append_to_def)
  from assms(1) q have "run_graph P configurable input
           = ([(Node_generate_query, apply_update input u)], Ended (apply_update input u))"
    by (simp add: run_graph_def Let_def continue_to_web_research_def research_loop.simps
          after_def)
  with m show ?thesis by (simp add: reached_finalize_def)
qed

theorem empty_query_list_ends_run_witness:
  "generate_query (example_providers [] [] True []) example_config 0 example_input
     = Inr (no_update\<lparr>upd_query_list := Some []\<rparr>)
   \<and> fst (run_graph (example_providers [] [] True []) example_config example_input)
       = [(Node_generate_query, example_input)]
   \<and> \<not> reached_finalize
         (run_graph (example_providers [] [] True []) example_config example_input)"
proof -
  have g: "generate_query (example_providers [] [] True []) example_config 0 example_input
     = Inr (no_update\<lparr>upd_query_list := Some []\<rparr>)"
    by (rule generate_query_example)
  have u: "upd_query_list (no_update\<lparr>upd_query_list := Some []\<rparr>) = Some []"
    by simp
  have s: "apply_update example_input (no_update\<lparr>upd_query_list := Some []\<rparr>) = example_input"
    by (simp add: apply_update_def no_update_def append_to_def overwrite_def example_input_def)
  from empty_query_list_ends_run[OF g u] g s show ?thesis by auto
qed

subsection \<open>C5: the prompt of finalize_answer\<close>

text \<open>
  C5. \<^verbatim>\<open>finalize_answer\<close> builds the numbered citation list and hands it to
  \<^verbatim>\<open>format\<close> as \<^verbatim>\<open>source_list\<close>, but \<^verbatim>\<open>answer_instructions\<close> has no
  field of that name: the prompt passed to the text-generation call is the same whatever
  \<^verbatim>\<open>sources_gathered\<close> holds, although the citation list built from one source
  differs from the one built from none. The citation list is not part of the prompt.
\<close>

theorem answer_prompt_without_source_list:
  "answer_prompt P n (state\<lparr>sources_gathered := sources\<rparr>) = answer_prompt P n state
   \<and> source_list (state\<lparr>sources_gathered := [s]\<rparr>)
       = ''['' @ str_nat 1 @ '']: ['' @ title s @ '']('' @ url s @ '')''
   \<and> source_list (state\<lparr>sources_gathered := [s]\<rparr>)
       \<noteq> source_list (state\<lparr>sources_gathered := []\<rparr>)"
proof -
  have a: "answer_prompt P n (state\<lparr>sources_gathered := sources\<rparr>) = answer_prompt P n state"
    by (simp add: answer_prompt_def answer_instructions_def)
  have b: "source_list (state\<lparr>sources_gathered := [s]\<rparr>)
       = ''['' @ str_nat 1 @ '']: ['' @ title s @ '']('' @ url s @ '')''"
    by (simp add: source_list_def citation_line_def)
  have c: "source_list (state\<lparr>sources_gathered := []\<rparr>) = []"
    by (simp add: source_list_def)
  from a b c show ?thesis by simp
qed

subsection \<open>C6: the loop counter\<close>

text \<open>
  C6. The updates \<^verbatim>\<open>generate_query\<close>, \<^verbatim>\<open>web_research\<close> and
  \<^verbatim>\<open>finalize_answer\<close> return leave \<^verbatim>\<open>research_loop_count\<close> as it is; the
  update \<^verbatim>\<open>reflection\<close> returns sets it to one more than the value reflection read
  (an absent counter reads as 0); and along every run, from the input state on, the
  counter never decreases.
\<close>

theorem loop_count_changed_by_reflection_only:
  "(generate_query P configurable n state = Inr u1 \<longrightarrow>
      research_loop_count (apply_update state u1) = research_loop_count state)
   \<and> (web_research P n branch = Inr u2 \<longrightarrow>
      research_loop_count (apply_update state u2) = research_loop_count state)
   \<and> (finalize_answer P configurable n state = Inr u3 \<longrightarrow>
      research_loop_count (apply_update state u3) = research_loop_count state)
   \<and> (reflection P configurable n state = Inr u4 \<longrightarrow>
      research_loop_count (apply_update state u4)
        = Some ((case research_loop_count state of None \<Rightarrow> 0 | Some c \<Rightarrow> c) + 1))
   \<and> sorted (map loop_count (input # map snd (fst (run_graph P configurable input))))"
proof -
  have a: "generate_query P configurable n state = Inr u1 \<longrightarrow>
      research_loop_count (apply_update state u1) = research_loop_count state"
    by (simp add: apply_update_keeps_count generate_query_count)
  have b: "web_research P n branch = Inr u2 \<longrightarrow>
      research_loop_count (apply_update state u2) = research_loop_count state"
    by (simp add: web_research_keeps_count)
  have c: "finalize_answer P configurable n state = Inr u3 \<longrightarrow>
      research_loop_count (apply_update state u3) = research_loop_count state"
    by (simp add: apply_update_keeps_count finalize_answer_count)
  have d: "reflection P configurable n state = Inr u4 \<longrightarrow>
      research_loop_count (apply_update state u4)
        = Some ((case research_loop_count state of None \<Rightarrow> 0 | Some c \<Rightarrow> c) + 1)"
    using reflection_count[of P configurable n state u4]
    by (simp add: apply_update_def loop_count_def)
  have "sorted_wrt (\<lambda>s t. loop_count s \<le> loop_count t)
          (input # map snd (fst (run_graph P configurable input)))"
    by (rule sorted_wrt_mono_rel[OF _ run_graph_advances]) (simp add: advances_def)
  then have e: "sorted (map loop_count (input # map snd (fst (run_graph P configurable input))))"
    by (simp only: sorted_wrt_map)
  from a b c d e show ?thesis by blast
qed

theorem loop_count_changed_by_reflection_only_witness:
  "generate_query (example_providers [''q''] [] True []) example_config 0 example_input
     = Inr (no_update\<lparr>upd_query_list := Some [''q'']\<rparr>)
   \<and> research_loop_count
       (apply_update example_input (no_update\<lparr>upd_query_list := Some [''q'']\<rparr>)) = None
   \<and> web_research (example_providers [''q''] [] True []) 1 \<lparr>search_query = ''q''\<rparr>
       = Inr (example_update ''q'' [])
   \<and> research_loop_count (apply_update example_input (example_update ''q'' [])) = None
   \<and> finalize_answer (example_providers [''q''] [] True []) example_config 3 example_input
       = Inr (no_update\<lparr>upd_messages := Some [AIMessage ''answer''],
                        upd_sources_gathered := Some []\<rparr>)
   \<and> research_loop_count
       (apply_update example_input
          (no_update\<lparr>upd_messages := Some [AIMessage ''answer''],
                     upd_sources_gathered := Some []\<rparr>)) = None
   \<and> reflection (example_providers [''q''] [] True []) example_config 2 example_input
       = Inr (no_update\<lparr>upd_is_sufficient := Some True, upd_knowledge_gap := Some [],
                        upd_follow_up_queries := Some [],
                        upd_research_loop_count := Some 1\<rparr>)
   \<and> research_loop_count
       (apply_update example_input
          (no_update\<lparr>upd_is_sufficient := Some True, upd_knowledge_gap := Some [],
                     upd_follow_up_queries := Some [],
                     upd_research_loop_count := Some 1\<rparr>)) = Some 1"
proof -
  let ?P = "example_providers [''q''] [] True []"
  have g: "generate_query ?P example_config 0 example_input
             = Inr (no_update\<lparr>upd_query_list := Some [''q'']\<rparr>)"
    by (rule generate_query_example)
  have w: "web_research ?P 1 \<lparr>search_query = ''q''\<rparr> = Inr (example_update ''q'' [])"
    by (simp add: web_research_example example_update_def)
  have f: "finalize_answer ?P example_config 3 example_input
       = Inr (no_update\<lparr>upd_messages := Some [AIMessage ''answer''],
                        upd_sources_gathered := Some []\<rparr>)"
    by (simp add: finalize_answer_example example_input_def)
  have r: "reflection ?P example_config 2 example_input
       = Inr (no_update\<lparr>upd_is_sufficient := Some True, upd_knowledge_gap := Some [],
                        upd_follow_up_queries := Some [],
                        upd_research_loop_count := Some 1\<rparr>)"
    by (simp add: reflection_example loop_count_def example_input_def)
  have n: "research_loop_count example_input = None"
    by (simp add: example_input_def)
  from loop_count_changed_by_reflection_only[of ?P example_config 0 example_input
         "no_update\<lparr>upd_query_list := Some [''q'']\<rparr>"]
    loop_count_changed_by_reflection_only[of ?P example_config 1 example_input _
         "\<lparr>search_query = ''q''\<rparr>" "example_update ''q'' []"]
    loop_count_changed_by_reflection_only[of ?P example_config 3 example_input _ _ _
         "no_update\<lparr>upd_messages := Some [AIMessage ''answer''],
                     upd_sources_gathered := Some []\<rparr>"]
    loop_count_changed_by_reflection_only[of ?P example_config 2 example_input _ _ _ _
         "no_update\<lparr>upd_is_sufficient := Some True, upd_knowledge_gap := Some [],
                     upd_follow_up_queries := Some [],
                     upd_research_loop_count := Some 1\<rparr>"]
    g w f r n
  show ?thesis by simp
qed

subsection \<open>C7: generate_query\<close>

text \<open>
  C7. \<^verbatim>\<open>generate_query\<close> calls the structured-generation interface with the
  configured query-writer model and a prompt that asks for no more than the state's
  \<^verbatim>\<open>initial_search_query_count\<close> queries when that key is present and for no more
  than the configured default otherwise (the rest of the prompt is fixed text, the date
  and the research topic); it returns whenever that call returns, and the merged state's
  \<^verbatim>\<open>query_list\<close> is then exactly the returned list, whatever it held before.
\<close>

theorem generate_query_replaces_query_list:
  "\<exists>pre mid rest. \<forall>P configurable n state.
     (let requested =
            (case initial_search_query_count state of
               Some k \<Rightarrow> k
             | None \<Rightarrow> number_of_initial_queries configurable);
          prompt =
            pre @ ''- Don't produce more than '' @ str_int requested @ '' queries.\<newline>''
            @ mid @ ''The current date is '' @ get_current_date P n @ ''.\<newline>''
            @ rest @ ''Context: '' @ get_research_topic P (messages state)
      in generate_query P configurable n state
           = (case invoke_query_writer P n (query_generator_model configurable) prompt of
                Inl e \<Rightarrow> Inl e
              | Inr result \<Rightarrow> Inr (no_update\<lparr>upd_query_list := Some (query result)\<rparr>))
         \<and> (\<forall>u. generate_query P configurable n state = Inr u \<longrightarrow>
               (\<exists>result.
                  invoke_query_writer P n (query_generator_model configurable) prompt
                    = Inr result
                  \<and> query_list (apply_update state u) = query result)))"
proof -
  from query_prompt_shape obtain pre mid rest where
    shape: "\<And>P cfg n st. query_prompt P cfg n st
       = Inr (pre @ ''- Don't produce more than '' @ str_int (number_queries st cfg)
              @ '' queries.\<newline>'' @ mid @ ''The current date is '' @ get_current_date P n
              @ ''.\<newline>'' @ rest @ ''Context: '' @ get_research_topic P (messages st))"
    by blast
  have n: "(case initial_search_query_count state of
               Some k \<Rightarrow> k
             | None \<Rightarrow> number_of_initial_queries configurable)
           = number_queries state configurable" for state configurable
    by (simp add: number_queries_def split: option.splits)
  have "\<forall>P configurable n state.
     (let requested =
            (case initial_search_query_count state of
               Some k \<Rightarrow> k
             | None \<Rightarrow> number_of_initial_queries configurable);
          prompt =
            pre @ ''- Don't produce more than '' @ str_int requested @ '' queries.\<newline>''
            @ mid @ ''The current date is '' @ get_current_date P n @ ''.\<newline>''
            @ rest @ ''Context: '' @ get_research_topic P (messages state)
      in generate_query P configurable n state
           = (case invoke_query_writer P n (query_generator_model configurable) prompt of
                Inl e \<Rightarrow> Inl e
              | Inr result \<Rightarrow> Inr (no_update\<lparr>upd_query_list := Some (query result)\<rparr>))
         \<and> (\<forall>u. generate_query P configurable n state = Inr u \<longrightarrow>
               (\<exists>result.
                  invoke_query_writer P n (query_generator_model configurable) prompt
                    = Inr result
                  \<and> query_list (apply_update state u) = query result)))"
    unfolding Let_def n
    by (auto simp: generate_query_def shape apply_update_def overwrite_def no_update_def
             split: sum.splits)
  then show ?thesis by blast
qed

theorem generate_query_replaces_query_list_witness:
  "\<exists>pre mid rest.
     generate_query echo_providers example_config 0
         (example_input\<lparr>query_list := [''old'']\<rparr>)
       = Inr (no_update\<lparr>upd_query_list := Some
           [pre @ ''- Don't produce more than 3 queries.\<newline>'' @ mid
            @ ''The current date is November 03, 2026.\<newline>'' @ rest @ ''Context: X'']\<rparr>)
     \<and> query_list
         (apply_update (example_input\<lparr>query_list := [''old'']\<rparr>)
            (no_update\<lparr>upd_query_list := Some
               [pre @ ''- Don't produce more than 3 queries.\<newline>'' @ mid
                @ ''The current date is November 03, 2026.\<newline>'' @ rest @ ''Context: X'']\<rparr>))
         = [pre @ ''- Don't produce more than 3 queries.\<newline>'' @ mid
            @ ''The current date is November 03, 2026.\<newline>'' @ rest @ ''Context: X'']
     \<and> generate_query echo_providers example_config 0
         (example_input\<lparr>query_list := [''old''], initial_search_query_count := Some 7\<rparr>)
       = Inr (no_update\<lparr>upd_query_list := Some
           [pre @ ''- Don't produce more than 7 queries.\<newline>'' @ mid
            @ ''The current date is November 03, 2026.\<newline>'' @ rest @ ''Context: X'']\<rparr>)"
proof -
  from generate_query_replaces_query_list obtain pre mid rest where
    T: "\<And>P configurable n state.
     (let requested =
            (case initial_search_query_count state of
               Some k \<Rightarrow> k
             | None \<Rightarrow> number_of_initial_queries configurable);
          prompt =
            pre @ ''- Don't produce more than '' @ str_int requested @ '' queries.\<newline>''
            @ mid @ ''The current date is '' @ get_current_date P n @ ''.\<newline>''
            @ rest @ ''Context: '' @ get_research_topic P (messages state)
      in generate_query P configurable n state
           = (case invoke_query_writer P n (query_generator_model configurable) prompt of
                Inl e \<Rightarrow> Inl e
              | Inr result \<Rightarrow> Inr (no_update\<lparr>upd_query_list := Some (query result)\<rparr>))
         \<and> (\<forall>u. generate_query P configurable n state = Inr u \<longrightarrow>
               (\<exists>result.
                  invoke_query_writer P n (query_generator_model configurable) prompt
                    = Inr result
                  \<and> query_list (apply_update state u) = query result)))"
    by blast
  have three: "str_int 3 = ''3''" and seven: "str_int 7 = ''7''"
    by (simp_all add: str_int_def)
  let ?p = "\<lambda>k. pre @ ''- Don't produce more than '' @ k @ '' queries.\<newline>'' @ mid
            @ ''The current date is November 03, 2026.\<newline>'' @ rest @ ''Context: X''"
  have a: "generate_query echo_providers example_config 0
         (example_input\<lparr>query_list := [''old'']\<rparr>)
       = Inr (no_update\<lparr>upd_query_list := Some [?p ''3'']\<rparr>)"
    using T[where state = "example_input\<lparr>query_list := [''old'']\<rparr>" and configurable = example_config
              and P = echo_providers and n = 0]
    by (simp add: Let_def echo_providers_def example_config_def example_input_def three)
  have b: "generate_query echo_providers example_config 0
         (example_input\<lparr>query_list := [''old''], initial_search_query_count := Some 7\<rparr>)
       = Inr (no_update\<lparr>upd_query_list := Some [?p ''7'']\<rparr>)"
    using T[where state = "example_input\<lparr>query_list := [''old''], initial_search_query_count := Some 7\<rparr>"
              and configurable = example_config and P = echo_providers and n = 0]
    by (simp add: Let_def echo_providers_def example_config_def example_input_def seven)
  have c: "query_list (apply_update (example_input\<lparr>query_list := [''old'']\<rparr>)
            (no_update\<lparr>upd_query_list := Some [?p ''3'']\<rparr>)) = [?p ''3'']"
    using T[where state = "example_input\<lparr>query_list := [''old'']\<rparr>" and configurable = example_config
              and P = echo_providers and n = 0] a
    by (simp add: Let_def echo_providers_def example_config_def example_input_def three)
  from a b c show ?thesis by (simp del: append_assoc) blast
qed

subsection \<open>C8: missing credentials\<close>

text \<open>
  C8. When \<^verbatim>\<open>OPENROUTER_API_KEY\<close> or \<^verbatim>\<open>TAVILY_API_KEY\<close> is absent from the
  environment, loading the module raises \<^verbatim>\<open>ValueError\<close>: a call of the agent ends
  in that error with an empty trace, no node having run and no state produced.
\<close>

theorem missing_credential_raises_before_any_node:
  assumes "env ''OPENROUTER_API_KEY'' = None \<or> env ''TAVILY_API_KEY'' = None"
  shows "\<exists>msg. invoke_agent env P configurable input = ([], Raised (ValueError msg))"
  using assms by (auto simp: invoke_agent_def load_module_def)

theorem missing_credential_raises_before_any_node_witness:
  "([''OPENROUTER_API_KEY'' \<mapsto> ''k''] :: string \<rightharpoonup> string) ''TAVILY_API_KEY'' = None
   \<and> invoke_agent [''OPENROUTER_API_KEY'' \<mapsto> ''k'']
         (example_providers [''q''] [] True []) example_config example_input
       = ([], Raised (ValueError ''TAVILY_API_KEY is not set''))"
  using missing_credential_raises_before_any_node
          [of "[''OPENROUTER_API_KEY'' \<mapsto> ''k'']"
              "example_providers [''q''] [] True []" example_config example_input]
  by (simp add: invoke_agent_def load_module_def)

subsection \<open>C9: local and global source numbers\<close>



subsection \<open>C10: the fallbacks to configured defaults\<close>


end
